theory Spec2Isabelle
  imports Main "HOL-Library.Word"
begin

section \<open>The line-number gutter (class CodeEditor)\<close>

text \<open>
  \<^verbatim>\<open>CodeEditor.lineNumberAreaWidth\<close> counts the decimal digits of the block count with a
  loop that divides by ten, and reserves ten pixels plus one glyph advance per digit.
  The advance of the glyph \<^verbatim>\<open>'9'\<close> comes from the font metrics and the block count from
  the document: both are arguments of the model. Python integers are unbounded, so
  they are \<^typ>\<open>int\<close>; \<^verbatim>\<open>//\<close> is floor division, as \<open>div\<close> is on \<^typ>\<open>int\<close>.
\<close>

function lineNumberAreaWidth_loop :: "int \<Rightarrow> int \<Rightarrow> int" where
  "lineNumberAreaWidth_loop count digits =
     (if count \<ge> 10 then lineNumberAreaWidth_loop (count div 10) (digits + 1) else digits)"
  by pat_completeness auto
termination
  by (relation "measure (\<lambda>(count, digits). nat count)") auto

definition lineNumberAreaWidth :: "int \<Rightarrow> int \<Rightarrow> int" where
  "lineNumberAreaWidth horizontalAdvance blockCount =
     (let digits = 1;
          count = max 1 blockCount;
          digits = lineNumberAreaWidth_loop count digits;
          space = 10 + horizontalAdvance * digits
      in space)"

section \<open>Font-size stepping (class PythonCodeEditor)\<close>

text \<open>
  The two fonts the actions touch. \<^verbatim>\<open>QFont.setPointSize\<close> requires a size greater than
  zero and leaves the font as it is otherwise.
\<close>

record fonts =
  editor_pointSize :: int
  output_pointSize :: int

definition setPointSize :: "int \<Rightarrow> int \<Rightarrow> int" where
  "setPointSize current pointSize = (if pointSize \<le> 0 then current else pointSize)"

definition increase_font_size :: "fonts \<Rightarrow> fonts" where
  "increase_font_size s =
     (let current_size = editor_pointSize s in
      if current_size < 72 then
        s\<lparr>editor_pointSize := setPointSize current_size (current_size + 2),
          output_pointSize := setPointSize (output_pointSize s) (output_pointSize s + 2)\<rparr>
      else s)"

definition decrease_font_size :: "fonts \<Rightarrow> fonts" where
  "decrease_font_size s =
     (let current_size = editor_pointSize s in
      if current_size > 6 then
        s\<lparr>editor_pointSize := setPointSize current_size (current_size - 2),
          output_pointSize := setPointSize (output_pointSize s) (output_pointSize s - 2)\<rparr>
      else s)"

text \<open>\<^verbatim>\<open>init_ui\<close> gives the editor Courier 11 and \<^verbatim>\<open>create_output_dock\<close> gives the output
  view Courier 10.\<close>

definition initial_fonts :: fonts where
  "initial_fonts = \<lparr>editor_pointSize = 11, output_pointSize = 10\<rparr>"

inductive font_reachable :: "fonts \<Rightarrow> bool" where
  font_init: "font_reachable initial_fonts"
| font_increase: "font_reachable s \<Longrightarrow> font_reachable (increase_font_size s)"
| font_decrease: "font_reachable s \<Longrightarrow> font_reachable (decrease_font_size s)"

section \<open>The syntax highlighter (class PythonSyntaxHighlighter)\<close>

subsection \<open>Text and \<^verbatim>\<open>str.find\<close>\<close>

text \<open>
  The text of a block is a \<^typ>\<open>string\<close>, one list element for each character position, so
  that an offset of \<^verbatim>\<open>str.find\<close> and an offset of \<^verbatim>\<open>setFormat\<close> name the same character.
  \<open>find_from tx sub i\<close> is the search of \<^verbatim>\<open>tx.find(sub, i)\<close> for \<open>i \<ge> 0\<close>: the lowest
  offset from \<open>i\<close> on at which \<open>sub\<close> stands, or \<open>- 1\<close>. \<open>py_find\<close> adds Python's reading of
  a negative start (counted from the end, not below zero).
\<close>

definition single_quote :: char where
  "single_quote = CHR 0x27"

definition double_quote :: char where
  "double_quote = CHR 0x22"

definition triple_single :: string where
  "triple_single = [single_quote, single_quote, single_quote]"

definition triple_double :: string where
  "triple_double = [double_quote, double_quote, double_quote]"

function find_from :: "string \<Rightarrow> string \<Rightarrow> nat \<Rightarrow> int" where
  "find_from tx sub i =
     (if length tx < i + length sub then - 1
      else if take (length sub) (drop i tx) = sub then int i
      else find_from tx sub (Suc i))"
  by pat_completeness auto
termination
  by (relation "measure (\<lambda>(tx, sub, i). Suc (length tx) - i)") auto

declare find_from.simps [simp del]

definition py_find :: "string \<Rightarrow> string \<Rightarrow> int \<Rightarrow> int" where
  "py_find tx sub start =
     find_from tx sub (nat (if start < 0 then max 0 (start + int (length tx)) else start))"

subsection \<open>Formats and the highlighter's state\<close>

text \<open>
  The formats are the \<^verbatim>\<open>QTextCharFormat\<close> objects the constructor builds. The state of
  the highlighter during one call of \<^verbatim>\<open>highlightBlock\<close> is the list of \<^verbatim>\<open>setFormat\<close> calls
  made so far, in order, and the current block state. \<open>apply_format\<close> is the effect of
  one \<^verbatim>\<open>setFormat(start, count, format)\<close> on the block's vector of formats, one slot for
  each character: a start outside the block is ignored, otherwise the slots from
  \<open>start\<close> up to \<open>start + count\<close> (cut at the end of the block) are overwritten.
  \<open>formats\<close> is the vector after all calls, starting from a vector without formats.
\<close>

datatype char_format =
  keyword_format | builtin_format | self_format | string_format
  | comment_format | number_format | function_format

type_synonym format_call = "int \<times> int \<times> char_format"

record highlighter =
  calls :: "format_call list"
  currentBlockState :: int

definition setFormat :: "int \<Rightarrow> int \<Rightarrow> char_format \<Rightarrow> highlighter \<Rightarrow> highlighter" where
  "setFormat start count fmt h = h\<lparr>calls := calls h @ [(start, count, fmt)]\<rparr>"

definition setCurrentBlockState :: "int \<Rightarrow> highlighter \<Rightarrow> highlighter" where
  "setCurrentBlockState newState h = h\<lparr>currentBlockState := newState\<rparr>"

definition apply_format :: "char_format option list \<Rightarrow> format_call \<Rightarrow> char_format option list" where
  "apply_format formatChanges c =
     (case c of (start, count, fmt) \<Rightarrow>
        if start < 0 \<or> start \<ge> int (length formatChanges) then formatChanges
        else map (\<lambda>i. if start \<le> int i \<and> int i < start + count then Some fmt
                        else formatChanges ! i)
               [0..<length formatChanges])"

definition formats :: "string \<Rightarrow> highlighter \<Rightarrow> char_format option list" where
  "formats tx h = foldl apply_format (replicate (length tx) None) (calls h)"

subsection \<open>Regular expressions\<close>

text \<open>
  The patterns of the rules use literals, the classes \<^verbatim>\<open>.\<close>, \<^verbatim>\<open>[^\n]\<close>, \<^verbatim>\<open>[0-9]\<close>,
  \<^verbatim>\<open>[A-Za-z0-9_]\<close> and \<^verbatim>\<open>\s\<close>, the quantifiers \<^verbatim>\<open>*\<close>, \<^verbatim>\<open>+\<close>, \<^verbatim>\<open>*?\<close> on a class and \<^verbatim>\<open>?\<close>,
  concatenation, \<^verbatim>\<open>\b\<close>, a lookahead and a lookbehind of fixed length. \<open>ends r tx p\<close>
  lists the offsets at which a match of \<open>r\<close> that starts at \<open>p\<close> can end, in the order in
  which a backtracking matcher tries them (longest first for a greedy quantifier,
  shortest first for a lazy one); the match found is the head of the list.
  \<open>exec_from\<close> finds the first start offset with a match, and \<open>globalMatch\<close> iterates
  it over the line as \<^verbatim>\<open>QRegularExpression.globalMatch\<close> does, returning the pairs
  \<^verbatim>\<open>(capturedStart, capturedLength)\<close>. After an empty match the search moves on by one
  character; no pattern of the constructor matches the empty string.
\<close>

datatype char_class = AnyChar | NotNewline | Digit | WordChar | Space

definition is_word_char :: "char \<Rightarrow> bool" where
  "is_word_char c =
     (let n = (of_char c :: nat) in
      (65 \<le> n \<and> n \<le> 90) \<or> (97 \<le> n \<and> n \<le> 122) \<or> (48 \<le> n \<and> n \<le> 57) \<or> n = 95)"

fun in_class :: "char_class \<Rightarrow> char \<Rightarrow> bool" where
  "in_class AnyChar c = (c \<noteq> CHR 0x0A)"
| "in_class NotNewline c = (c \<noteq> CHR 0x0A)"
| "in_class Digit c = (let n = (of_char c :: nat) in 48 \<le> n \<and> n \<le> 57)"
| "in_class WordChar c = is_word_char c"
| "in_class Space c = (let n = (of_char c :: nat) in n = 32 \<or> (9 \<le> n \<and> n \<le> 13))"

datatype rx =
  Lit string
  | One char_class
  | Many char_class
  | Many1 char_class
  | Few char_class
  | Opt rx
  | Seq rx rx
  | WordBoundary
  | Ahead rx
  | Behind nat rx

definition run :: "char_class \<Rightarrow> string \<Rightarrow> nat \<Rightarrow> nat" where
  "run c tx p = length (takeWhile (in_class c) (drop p tx))"

definition at_word_boundary :: "string \<Rightarrow> nat \<Rightarrow> bool" where
  "at_word_boundary tx p =
     ((0 < p \<and> p \<le> length tx \<and> is_word_char (tx ! (p - 1)))
        \<noteq> (p < length tx \<and> is_word_char (tx ! p)))"

fun ends :: "rx \<Rightarrow> string \<Rightarrow> nat \<Rightarrow> nat list" where
  "ends (Lit s) tx p =
     (if p + length s \<le> length tx \<and> take (length s) (drop p tx) = s then [p + length s] else [])"
| "ends (One c) tx p = (if p < length tx \<and> in_class c (tx ! p) then [Suc p] else [])"
| "ends (Many c) tx p = rev (map (\<lambda>k. p + k) [0..<Suc (run c tx p)])"
| "ends (Many1 c) tx p = rev (map (\<lambda>k. p + k) [1..<Suc (run c tx p)])"
| "ends (Few c) tx p = map (\<lambda>k. p + k) [0..<Suc (run c tx p)]"
| "ends (Opt r) tx p = ends r tx p @ [p]"
| "ends (Seq a b) tx p = concat (map (ends b tx) (ends a tx p))"
| "ends WordBoundary tx p = (if at_word_boundary tx p then [p] else [])"
| "ends (Ahead r) tx p = (if ends r tx p \<noteq> [] then [p] else [])"
| "ends (Behind n r) tx p = (if n \<le> p \<and> p \<in> set (ends r tx (p - n)) then [p] else [])"

function exec_from :: "rx \<Rightarrow> string \<Rightarrow> nat \<Rightarrow> (nat \<times> nat) option" where
  "exec_from r tx p =
     (if length tx < p then None
      else case ends r tx p of
             e # _ \<Rightarrow> Some (p, e)
           | [] \<Rightarrow> exec_from r tx (Suc p))"
  by pat_completeness auto
termination
  by (relation "measure (\<lambda>(r, tx, p). Suc (length tx) - p)") auto

lemma exec_from_bounds:
  "exec_from r tx p = Some (s, e) \<Longrightarrow> p \<le> s \<and> s \<le> length tx"
proof (induction r tx p rule: exec_from.induct)
  case (1 r tx p)
  show ?case
  proof (cases "length tx < p")
    case True
    with "1.prems" show ?thesis by simp
  next
    case False
    show ?thesis
    proof (cases "ends r tx p")
      case Nil
      with False "1.prems" have "exec_from r tx (Suc p) = Some (s, e)" by simp
      from "1.IH" [OF False Nil this] show ?thesis by simp
    next
      case (Cons a list)
      with False "1.prems" show ?thesis by simp
    qed
  qed
qed

function globalMatch_from :: "rx \<Rightarrow> string \<Rightarrow> nat \<Rightarrow> (int \<times> int) list" where
  "globalMatch_from r tx p =
     (case exec_from r tx p of
        None \<Rightarrow> []
      | Some (s, e) \<Rightarrow>
          (int s, int e - int s) # globalMatch_from r tx (if e \<le> s then Suc s else e))"
  by pat_completeness auto
termination
proof (relation "measure (\<lambda>(r, tx, p). Suc (length tx) - p)")
  show "wf (measure (\<lambda>(r, tx, p). Suc (length tx) - p))" by simp
next
  fix r tx p a s e
  assume "exec_from r tx p = Some a" and "(s, e) = a"
  then have "exec_from r tx p = Some (s, e)" by simp
  from exec_from_bounds [OF this]
  show "((r, tx, if e \<le> s then Suc s else e), r, tx, p)
          \<in> measure (\<lambda>(r, tx, p). Suc (length tx) - p)"
    by auto
qed

declare exec_from.simps [simp del] globalMatch_from.simps [simp del]

definition globalMatch :: "rx \<Rightarrow> string \<Rightarrow> (int \<times> int) list" where
  "globalMatch r tx = globalMatch_from r tx 0"

type_synonym rule = "rx \<times> char_format"


subsection \<open>The rules registered by the constructor\<close>

text \<open>
  \<open>word_rule w\<close> is the pattern \<^verbatim>\<open>\bw\b\<close>. The list \<open>highlighting_rules\<close> is
  \<^verbatim>\<open>self.highlighting_rules\<close> after the constructor: keywords, builtins, \<^verbatim>\<open>self\<close>, the two
  quoted-string patterns, comments, numbers, and the three patterns for function and
  class names, in the order of registration.
\<close>

definition word_rule :: "string \<Rightarrow> rx" where
  "word_rule w = Seq WordBoundary (Seq (Lit w) WordBoundary)"

definition keywords_list :: "string list" where
  "keywords_list =
     [''and'', ''as'', ''assert'', ''break'', ''class'', ''continue'', ''def'',
      ''del'', ''elif'', ''else'', ''except'', ''False'', ''finally'', ''for'',
      ''from'', ''global'', ''if'', ''import'', ''in'', ''is'', ''lambda'',
      ''None'', ''nonlocal'', ''not'', ''or'', ''pass'', ''raise'', ''return'',
      ''True'', ''try'', ''while'', ''with'', ''yield'']"

definition builtins :: "string list" where
  "builtins =
     [''abs'', ''all'', ''any'', ''ascii'', ''bin'', ''bool'', ''bytearray'',
      ''bytes'', ''callable'', ''chr'', ''classmethod'', ''compile'', ''complex'',
      ''delattr'', ''dict'', ''dir'', ''divmod'', ''enumerate'', ''eval'', ''exec'',
      ''filter'', ''float'', ''format'', ''frozenset'', ''getattr'', ''globals'',
      ''hasattr'', ''hash'', ''help'', ''hex'', ''id'', ''input'', ''int'', ''isinstance'',
      ''issubclass'', ''iter'', ''len'', ''list'', ''locals'', ''map'', ''max'',
      ''memoryview'', ''min'', ''next'', ''object'', ''oct'', ''open'', ''ord'', ''pow'',
      ''print'', ''property'', ''range'', ''repr'', ''reversed'', ''round'', ''set'',
      ''setattr'', ''slice'', ''sorted'', ''staticmethod'', ''str'', ''sum'', ''super'',
      ''tuple'', ''type'', ''vars'', ''zip'']"

definition double_quoted_rx :: rx where
  "double_quoted_rx = Seq (Lit [double_quote]) (Seq (Few AnyChar) (Lit [double_quote]))"

definition single_quoted_rx :: rx where
  "single_quoted_rx = Seq (Lit [single_quote]) (Seq (Few AnyChar) (Lit [single_quote]))"

definition comment_rx :: rx where
  "comment_rx = Seq (Lit ''#'') (Many NotNewline)"

definition number_rx :: rx where
  "number_rx =
     Seq WordBoundary (Seq (Many1 Digit) (Seq (Opt (Lit ''.'')) (Seq (Many Digit) WordBoundary)))"

definition name_before_paren_rx :: rx where
  "name_before_paren_rx = Seq WordBoundary (Seq (Many1 WordChar) (Ahead (Lit ''('')))"

definition name_after_class_rx :: rx where
  "name_after_class_rx = Seq (Behind 6 (Seq (Lit ''class'') (One Space))) (Many1 WordChar)"

definition name_after_def_rx :: rx where
  "name_after_def_rx = Seq (Behind 4 (Seq (Lit ''def'') (One Space))) (Many1 WordChar)"

definition highlighting_rules :: "rule list" where
  "highlighting_rules =
     map (\<lambda>w. (word_rule w, keyword_format)) keywords_list
     @ map (\<lambda>b. (word_rule b, builtin_format)) builtins
     @ [(word_rule ''self'', self_format),
        (double_quoted_rx, string_format),
        (single_quoted_rx, string_format),
        (comment_rx, comment_format),
        (number_rx, number_format),
        (name_before_paren_rx, function_format),
        (name_after_class_rx, function_format),
        (name_after_def_rx, function_format)]"

subsection \<open>\<^verbatim>\<open>highlightBlock\<close>\<close>

text \<open>
  \<open>apply_rules\<close> is the loop over the rules and, inside it, \<open>apply_matches\<close> the loop over
  the matches of one pattern. \<open>scan_multiline\<close> is the \<^verbatim>\<open>while\<close> loop that looks for newly
  opened triple-quoted strings; it is a partial function whose value is \<open>None\<close> should the
  loop not return. \<open>highlightBlock rules tx previousBlockState storedState\<close> is one call
  of the method on the text \<open>tx\<close>, where \<open>previousBlockState\<close> is the state the preceding
  block left (\<open>- 1\<close> for the first block) and \<open>storedState\<close> is the state this block has
  from an earlier pass.
\<close>

fun apply_matches :: "(int \<times> int) list \<Rightarrow> char_format \<Rightarrow> highlighter \<Rightarrow> highlighter" where
  "apply_matches [] format_rule h = h"
| "apply_matches ((capturedStart, capturedLength) # iterator) format_rule h =
     apply_matches iterator format_rule (setFormat capturedStart capturedLength format_rule h)"

fun apply_rules :: "rule list \<Rightarrow> string \<Rightarrow> highlighter \<Rightarrow> highlighter" where
  "apply_rules [] tx h = h"
| "apply_rules ((pattern, format_rule) # rules) tx h =
     apply_rules rules tx (apply_matches (globalMatch pattern tx) format_rule h)"

partial_function (option) scan_multiline :: "string \<Rightarrow> int \<Rightarrow> highlighter \<Rightarrow> highlighter option" where
  "scan_multiline tx start_index h =
     (if start_index < int (length tx) then
        let start_s = py_find tx triple_single start_index;
            start_d = py_find tx triple_double start_index
        in if start_s = - 1 \<and> start_d = - 1 then Some h
           else
             let (new_start_index, delimiter, state) =
                   (if start_d = - 1 \<or> (start_s \<noteq> - 1 \<and> start_s < start_d)
                    then (start_s, triple_single, 1)
                    else (start_d, triple_double, 2));
                 end_index = py_find tx delimiter (new_start_index + int (length delimiter))
             in if end_index = - 1 then
                  let h = setCurrentBlockState state h;
                      len = int (length tx) - new_start_index
                  in Some (setFormat new_start_index len string_format h)
                else
                  let len = end_index - new_start_index + int (length delimiter);
                      h = setFormat new_start_index len string_format h
                  in scan_multiline tx (new_start_index + len) h
      else Some h)"

declare scan_multiline.simps [code]

definition highlightBlock :: "rule list \<Rightarrow> string \<Rightarrow> int \<Rightarrow> int \<Rightarrow> highlighter option" where
  "highlightBlock rules tx previousBlockState storedState =
     (let h = apply_rules rules tx \<lparr>calls = [], currentBlockState = storedState\<rparr>;
          h = setCurrentBlockState 0 h;
          in_multiline_state = previousBlockState;
          delimiter = (if in_multiline_state = 1 then triple_single
                       else if in_multiline_state = 2 then triple_double
                       else [])
      in if in_multiline_state > 0 then
           let end_index = py_find tx delimiter 0
           in if end_index = - 1 then
                let h = setCurrentBlockState in_multiline_state h
                in Some (setFormat 0 (int (length tx)) string_format h)
              else
                let len = end_index + int (length delimiter);
                    h = setFormat 0 len string_format h;
                    start_index = len
                in scan_multiline tx start_index h
         else
           let start_index = 0 in scan_multiline tx start_index h)"

subsection \<open>Vocabulary of the highlighter's properties\<close>





text \<open>
  What a scan from \<open>p\<close> in state \<open>h\<close> results in: it returns, it only adds calls with the
  string format at offsets from \<open>p\<close> on, and it leaves the block state as it was or sets
  it to 1 or 2.
\<close>

definition string_calls_from :: "int \<Rightarrow> format_call list \<Rightarrow> bool" where
  "string_calls_from p cs = (\<forall>c\<in>set cs. snd (snd c) = string_format \<and> p \<le> fst c)"

definition scan_result :: "int \<Rightarrow> highlighter \<Rightarrow> highlighter option \<Rightarrow> bool" where
  "scan_result p h r =
     (\<exists>h'. r = Some h' \<and>
        (\<exists>ml. calls h' = calls h @ ml \<and> string_calls_from p ml) \<and>
        (currentBlockState h' = currentBlockState h \<or> currentBlockState h' = 1
           \<or> currentBlockState h' = 2))"

definition covers :: "format_call \<Rightarrow> nat \<Rightarrow> bool" where
  "covers c i = (case c of (start, count, fmt) \<Rightarrow> 0 \<le> start \<and> start \<le> int i \<and> int i < start + count)"

definition rule_calls :: "rule list \<Rightarrow> string \<Rightarrow> format_call list" where
  "rule_calls rules tx =
     concat (map (\<lambda>(pattern, format_rule).
                    map (\<lambda>(capturedStart, capturedLength).
                           (capturedStart, capturedLength, format_rule))
                      (globalMatch pattern tx))
               rules)"

definition after_rules :: "rule list \<Rightarrow> string \<Rightarrow> highlighter" where
  "after_rules rules tx = \<lparr>calls = rule_calls rules tx, currentBlockState = 0\<rparr>"

definition delimiter_of :: "int \<Rightarrow> string" where
  "delimiter_of in_multiline_state =
     (if in_multiline_state = 1 then triple_single
      else if in_multiline_state = 2 then triple_double
      else [])"



definition scenario_c_line :: string where
  "scenario_c_line = ''def foo(x):''"


section \<open>Files and the main window (class PythonCodeEditor)\<close>

subsection \<open>Text files: UTF-8 and newline translation\<close>

text \<open>
  A Python \<^verbatim>\<open>str\<close> is a list of code points and a file is a list of bytes.
  \<^verbatim>\<open>open(path, 'w', encoding='utf-8')\<close> writes text with every line feed replaced by the
  platform's line separator and the result encoded in UTF-8 (a surrogate code point
  raises \<^verbatim>\<open>UnicodeEncodeError\<close>); \<^verbatim>\<open>open(path, 'r', encoding='utf-8')\<close> decodes strictly
  (\<^verbatim>\<open>UnicodeDecodeError\<close> on malformed input) and then turns \<^verbatim>\<open>\r\n\<close> and \<^verbatim>\<open>\r\<close> into a
  line feed. An error is the value \<open>None\<close>.
\<close>

type_synonym py_str = "nat list"

type_synonym byte = "8 word"

definition encode_code_point :: "nat \<Rightarrow> byte list option" where
  "encode_code_point cp =
     (if cp < 0x80 then Some [of_nat cp]
      else if cp < 0x800 then Some [of_nat (0xC0 + cp div 64), of_nat (0x80 + cp mod 64)]
      else if 0xD800 \<le> cp \<and> cp \<le> 0xDFFF then None
      else if cp < 0x10000 then
        Some [of_nat (0xE0 + cp div 4096), of_nat (0x80 + cp div 64 mod 64),
              of_nat (0x80 + cp mod 64)]
      else if cp \<le> 0x10FFFF then
        Some [of_nat (0xF0 + cp div 262144), of_nat (0x80 + cp div 4096 mod 64),
              of_nat (0x80 + cp div 64 mod 64), of_nat (0x80 + cp mod 64)]
      else None)"

fun utf8_encode :: "py_str \<Rightarrow> byte list option" where
  "utf8_encode [] = Some []"
| "utf8_encode (cp # cps) =
     (case encode_code_point cp of
        None \<Rightarrow> None
      | Some bs \<Rightarrow> map_option ((@) bs) (utf8_encode cps))"

definition is_continuation :: "byte \<Rightarrow> bool" where
  "is_continuation b = (0x80 \<le> unat b \<and> unat b \<le> 0xBF)"

fun utf8_decode :: "byte list \<Rightarrow> py_str option" where
  "utf8_decode [] = Some []"
| "utf8_decode (b0 # bs) =
     (if unat b0 < 0x80 then map_option ((#) (unat b0)) (utf8_decode bs)
      else if 0xC2 \<le> unat b0 \<and> unat b0 \<le> 0xDF then
        (case bs of
           b1 # r \<Rightarrow>
             if is_continuation b1
             then map_option ((#) ((unat b0 - 0xC0) * 64 + (unat b1 - 0x80))) (utf8_decode r)
             else None
         | _ \<Rightarrow> None)
      else if 0xE0 \<le> unat b0 \<and> unat b0 \<le> 0xEF then
        (case bs of
           b1 # b2 # r \<Rightarrow>
             (let cp = (unat b0 - 0xE0) * 4096 + (unat b1 - 0x80) * 64 + (unat b2 - 0x80)
              in if is_continuation b1 \<and> is_continuation b2 \<and> 0x800 \<le> cp
                    \<and> \<not> (0xD800 \<le> cp \<and> cp \<le> 0xDFFF)
                 then map_option ((#) cp) (utf8_decode r)
                 else None)
         | _ \<Rightarrow> None)
      else if 0xF0 \<le> unat b0 \<and> unat b0 \<le> 0xF4 then
        (case bs of
           b1 # b2 # b3 # r \<Rightarrow>
             (let cp = (unat b0 - 0xF0) * 262144 + (unat b1 - 0x80) * 4096
                       + (unat b2 - 0x80) * 64 + (unat b3 - 0x80)
              in if is_continuation b1 \<and> is_continuation b2 \<and> is_continuation b3
                    \<and> 0x10000 \<le> cp \<and> cp \<le> 0x10FFFF
                 then map_option ((#) cp) (utf8_decode r)
                 else None)
         | _ \<Rightarrow> None)
      else None)"

definition translate_newlines :: "py_str \<Rightarrow> py_str \<Rightarrow> py_str" where
  "translate_newlines sep s = concat (map (\<lambda>c. if c = 0x0A then sep else [c]) s)"

fun universal_newlines :: "py_str \<Rightarrow> py_str" where
  "universal_newlines [] = []"
| "universal_newlines [c] = (if c = 0x0D then [0x0A] else [c])"
| "universal_newlines (c # d # s) =
     (if c = 0x0D \<and> d = 0x0A then 0x0A # universal_newlines s
      else if c = 0x0D then 0x0A # universal_newlines (d # s)
      else c # universal_newlines (d # s))"

definition write_text :: "py_str \<Rightarrow> py_str \<Rightarrow> byte list option" where
  "write_text sep s = utf8_encode (translate_newlines sep s)"

definition read_text :: "byte list \<Rightarrow> py_str option" where
  "read_text bs = map_option universal_newlines (utf8_decode bs)"

subsection \<open>The window's state\<close>

text \<open>
  The fields of the window that the file and run actions read or write: the current
  path, the editor's text and the document's modified flag, the disk, the run action's
  enabled flag, the number of external processes started and not yet finished, and the
  dialogs shown so far. What the user answers to a dialog, whether a path can be
  opened for writing and the platform's line separator come from outside: they are
  the fields of \<open>env\<close>. A file dialog answers the empty string when it is cancelled.
\<close>

datatype dialog =
  SaveDiscardCancelBox | SaveFileDialog | OpenFileDialog | ErrorBox | CannotRunBox

datatype button = Save | Discard | Cancel

record app =
  current_file_path :: "string option"
  editor_text :: py_str
  document_modified :: bool
  window_modified :: bool
  files :: "string \<Rightarrow> byte list option"
  run_enabled :: bool
  running :: nat
  output_cleared :: nat
  dialogs :: "dialog list"
  status_message :: string

record env =
  message_box_answer :: button
  save_dialog_answer :: string
  open_dialog_answer :: string
  can_write :: "string \<Rightarrow> bool"
  linesep :: py_str

definition show_dialog :: "dialog \<Rightarrow> app \<Rightarrow> app" where
  "show_dialog d s = s\<lparr>dialogs := dialogs s @ [d]\<rparr>"

definition set_current_file :: "string option \<Rightarrow> app \<Rightarrow> app" where
  "set_current_file file_path s =
     (let shown_name = (case file_path of
                          None \<Rightarrow> ''Untitled.py''
                        | Some p \<Rightarrow> if p = [] then ''Untitled.py'' else p)
      in s\<lparr>current_file_path := file_path,
           document_modified := False,
           window_modified := False,
           status_message := ''File: '' @ shown_name\<rparr>)"

definition write_to_file :: "env \<Rightarrow> string \<Rightarrow> app \<Rightarrow> bool \<times> app" where
  "write_to_file e file_path s =
     (if \<not> can_write e file_path then (False, show_dialog ErrorBox s)
      else case write_text (linesep e) (editor_text s) of
             None \<Rightarrow> (False, show_dialog ErrorBox (s\<lparr>files := (files s)(file_path \<mapsto> [])\<rparr>))
           | Some bs \<Rightarrow>
               (True, (set_current_file (Some file_path)
                         (s\<lparr>files := (files s)(file_path \<mapsto> bs)\<rparr>))
                      \<lparr>status_message := ''Saved to '' @ file_path\<rparr>))"

definition save_file_as :: "env \<Rightarrow> app \<Rightarrow> bool \<times> app" where
  "save_file_as e s =
     (let s = show_dialog SaveFileDialog s;
          file_path = save_dialog_answer e
      in if file_path \<noteq> [] then write_to_file e file_path s else (False, s))"

definition save_file :: "env \<Rightarrow> app \<Rightarrow> bool \<times> app" where
  "save_file e s =
     (case current_file_path s of
        None \<Rightarrow> save_file_as e s
      | Some p \<Rightarrow> write_to_file e p s)"

definition maybe_save :: "env \<Rightarrow> app \<Rightarrow> bool \<times> app" where
  "maybe_save e s =
     (if \<not> document_modified s then (True, s)
      else
        let s = show_dialog SaveDiscardCancelBox s;
            ret = message_box_answer e
        in if ret = Save then save_file e s
           else if ret = Cancel then (False, s)
           else (True, s))"

definition new_file :: "env \<Rightarrow> app \<Rightarrow> app" where
  "new_file e s =
     (case maybe_save e s of
        (True, s) \<Rightarrow>
          (set_current_file None (s\<lparr>editor_text := [], window_modified := True\<rparr>))
            \<lparr>document_modified := False, window_modified := False\<rparr>
      | (False, s) \<Rightarrow> s)"

definition open_file :: "env \<Rightarrow> app \<Rightarrow> app" where
  "open_file e s =
     (case maybe_save e s of
        (True, s) \<Rightarrow>
          (let s = show_dialog OpenFileDialog s;
               file_path = open_dialog_answer e
           in if file_path \<noteq> [] then
                (case files s file_path of
                   None \<Rightarrow> show_dialog ErrorBox s
                 | Some bs \<Rightarrow>
                     (case read_text bs of
                        None \<Rightarrow> show_dialog ErrorBox s
                      | Some content \<Rightarrow>
                          set_current_file (Some file_path)
                            (s\<lparr>editor_text := content, window_modified := True\<rparr>)))
              else s)
      | (False, s) \<Rightarrow> s)"

definition edit_text :: "py_str \<Rightarrow> app \<Rightarrow> app" where
  "edit_text content s =
     s\<lparr>editor_text := content, document_modified := True, window_modified := True\<rparr>"

definition run_code :: "env \<Rightarrow> app \<Rightarrow> app" where
  "run_code e s =
     (case save_file e s of
        (False, s) \<Rightarrow> s\<lparr>status_message := ''Save cancelled. Run aborted.''\<rparr>
      | (True, s) \<Rightarrow>
          (case current_file_path s of
             None \<Rightarrow> show_dialog CannotRunBox s
           | Some p \<Rightarrow>
               if p \<noteq> [] then
                 s\<lparr>output_cleared := output_cleared s + 1,
                   run_enabled := False,
                   running := running s + 1\<rparr>
               else show_dialog CannotRunBox s))"

definition process_finished :: "app \<Rightarrow> app" where
  "process_finished s = s\<lparr>run_enabled := True\<rparr>"

definition initial_app :: "(string \<Rightarrow> byte list option) \<Rightarrow> app" where
  "initial_app disk =
     \<lparr>current_file_path = None, editor_text = [], document_modified = False,
      window_modified = False, files = disk, run_enabled = True, running = 0,
      output_cleared = 0, dialogs = [], status_message = ''File: Untitled.py''\<rparr>"

text \<open>
  The events of the window. The run action fires only while it is enabled (a disabled
  \<^verbatim>\<open>QAction\<close> does not emit \<^verbatim>\<open>triggered\<close>), and the \<^verbatim>\<open>finished\<close> signal arrives only for
  a process that was started and has not finished; \<open>running\<close> counts the calls of
  \<^verbatim>\<open>process.start\<close> that no \<^verbatim>\<open>finished\<close> signal has answered, whether or not \<^verbatim>\<open>QProcess\<close>
  would itself refuse a second start.
\<close>

inductive reachable :: "app \<Rightarrow> bool" where
  reach_init: "reachable (initial_app disk)"
| reach_run: "reachable s \<Longrightarrow> run_enabled s \<Longrightarrow> reachable (run_code e s)"
| reach_finished:
    "reachable s \<Longrightarrow> 0 < running s \<Longrightarrow>
     reachable (process_finished (s\<lparr>running := running s - 1\<rparr>))"
| reach_edit: "reachable s \<Longrightarrow> reachable (edit_text content s)"
| reach_new: "reachable s \<Longrightarrow> reachable (new_file e s)"
| reach_open: "reachable s \<Longrightarrow> reachable (open_file e s)"
| reach_save: "reachable s \<Longrightarrow> reachable (snd (save_file e s))"
| reach_save_as: "reachable s \<Longrightarrow> reachable (snd (save_file_as e s))"

subsection \<open>Document texts\<close>



subsection \<open>Sample inputs\<close>

text \<open>
  A document that was edited and never saved, an environment in which the user cancels
  every dialog, and one in which the user picks the path \<^verbatim>\<open>a.py\<close> on a platform whose
  line separator is \<^verbatim>\<open>\r\n\<close>. The sample text is \<^verbatim>\<open>a\<close>, U+00E9, a line feed, U+20AC and
  U+1F600: one code point for each length of a UTF-8 sequence.
\<close>

definition sample_text :: py_str where
  "sample_text = [0x61, 0xE9, 0x0A, 0x20AC, 0x1F600]"

definition unsaved_document :: app where
  "unsaved_document = edit_text sample_text (initial_app Map.empty)"

definition cancel_env :: env where
  "cancel_env =
     \<lparr>message_box_answer = Cancel, save_dialog_answer = [], open_dialog_answer = [],
      can_write = (\<lambda>p. True), linesep = [0x0A]\<rparr>"

definition sample_env :: env where
  "sample_env =
     \<lparr>message_box_answer = Save, save_dialog_answer = ''a.py'', open_dialog_answer = ''a.py'',
      can_write = (\<lambda>p. True), linesep = [0x0D, 0x0A]\<rparr>"

section \<open>Properties of the gutter width\<close>

lemma lineNumberAreaWidth_loop_digits:
  "1 \<le> count \<Longrightarrow> 10 ^ d \<le> count \<Longrightarrow> count < 10 ^ Suc d \<Longrightarrow>
   lineNumberAreaWidth_loop count digits = digits + int d"
proof (induction d arbitrary: count digits)
  case 0
  then show ?case by simp
next
  case (Suc d)
  define p :: int where "p = 10 ^ d"
  have p: "1 \<le> p" unfolding p_def by simp
  have b: "10 * p \<le> count" "count < 100 * p"
    using Suc.prems by (simp_all add: p_def)
  have ge: "10 \<le> count" using p b by linarith
  have lo: "10 ^ d \<le> count div 10" using b unfolding p_def by linarith
  have hi: "count div 10 < 10 ^ Suc d" using b unfolding p_def by simp
  have "1 \<le> count div 10" using ge by linarith
  from Suc.IH [OF this lo hi, of "digits + 1"] ge show ?case
    by simp
qed

text \<open>
  Claim C4, first half. For a line count \<open>n \<ge> 1\<close> with \<open>d\<close> decimal digits (that is,
  \<open>10 ^ (d - 1) \<le> n < 10 ^ d\<close>), the reserved width is the padding of ten plus \<open>d\<close> glyph
  advances. Second half, as the code has it: from nine to ten lines the width grows by
  one glyph advance; the padding is part of both widths and is not added again.
\<close>

theorem lineNumberAreaWidth_decimal_digits:
  assumes "1 \<le> n" and "0 < d" and "10 ^ (d - 1) \<le> n" and "n < 10 ^ d"
  shows "lineNumberAreaWidth w n = 10 + w * int d \<and>
         lineNumberAreaWidth w 10 - lineNumberAreaWidth w 9 = w"
proof -
  obtain k where d: "d = Suc k" using assms(2) by (cases d) auto
  have "lineNumberAreaWidth_loop n 1 = 1 + int k"
    using assms d by (intro lineNumberAreaWidth_loop_digits) simp_all
  then have general: "lineNumberAreaWidth w n = 10 + w * int d"
    using assms(1) d by (simp add: lineNumberAreaWidth_def Let_def max_def)
  have "lineNumberAreaWidth_loop 10 1 = 1 + int 1"
    by (intro lineNumberAreaWidth_loop_digits) simp_all
  moreover have "lineNumberAreaWidth_loop 9 1 = 1 + int 0"
    by (intro lineNumberAreaWidth_loop_digits) simp_all
  ultimately have "lineNumberAreaWidth w 10 - lineNumberAreaWidth w 9 = w"
    by (simp add: lineNumberAreaWidth_def Let_def algebra_simps)
  with general show ?thesis by simp
qed

theorem lineNumberAreaWidth_decimal_digits_witness:
  "(1::int) \<le> 10 \<and> (0::nat) < 2 \<and> (10::int) ^ (2 - 1) \<le> 10 \<and> (10::int) < 10 ^ 2 \<and>
   lineNumberAreaWidth 7 10 = 10 + 7 * int 2 \<and>
   lineNumberAreaWidth 7 10 - lineNumberAreaWidth 7 9 = 7"
  using lineNumberAreaWidth_decimal_digits [of 10 2 7] by simp

text \<open>
  Claim C4 as written says that the growth from nine to ten lines is one glyph advance
  plus the fixed padding. With a glyph advance of 7 the width goes from 17 to 24: the
  growth is 7, not 17.
\<close>

theorem lineNumberAreaWidth_growth_counterexample:
  "lineNumberAreaWidth 7 10 - lineNumberAreaWidth 7 9 \<noteq> 7 + 10"
  by (simp add: lineNumberAreaWidth_def Let_def)

section \<open>Properties of font-size stepping\<close>

lemma font_reachable_invariant:
  "font_reachable s \<Longrightarrow>
     5 \<le> editor_pointSize s \<and> editor_pointSize s \<le> 73 \<and>
     output_pointSize s = editor_pointSize s - 1"
proof (induction rule: font_reachable.induct)
  case font_init
  show ?case by (simp add: initial_fonts_def)
next
  case (font_increase s)
  then show ?case
    by (auto simp: increase_font_size_def setPointSize_def Let_def)
next
  case (font_decrease s)
  then show ?case
    by (auto simp: decrease_font_size_def setPointSize_def Let_def)
qed

text \<open>
  Claim C10. Only the editor's size is tested. Below 72 the increase adds two to both
  fonts and from 72 on it changes nothing; above 6 the decrease takes two from both
  fonts and up to 6 it changes nothing. The sizes are those \<^verbatim>\<open>QFont\<close> accepts (the new size
  must stay positive); every state reached from the initial fonts 11 and 10 is such a
  state, its editor size lies between 5 and 73, and the output font follows one point
  below.
\<close>

theorem font_size_stepping:
  assumes "- 1 \<le> editor_pointSize s" and "2 < output_pointSize s"
  shows "(editor_pointSize s < 72 \<longrightarrow>
            increase_font_size s =
              s\<lparr>editor_pointSize := editor_pointSize s + 2,
                output_pointSize := output_pointSize s + 2\<rparr>) \<and>
         (72 \<le> editor_pointSize s \<longrightarrow> increase_font_size s = s) \<and>
         (6 < editor_pointSize s \<longrightarrow>
            decrease_font_size s =
              s\<lparr>editor_pointSize := editor_pointSize s - 2,
                output_pointSize := output_pointSize s - 2\<rparr>) \<and>
         (editor_pointSize s \<le> 6 \<longrightarrow> decrease_font_size s = s) \<and>
         (font_reachable s \<longrightarrow> 5 \<le> editor_pointSize s \<and> editor_pointSize s \<le> 73)"
  using assms font_reachable_invariant [of s]
  by (simp add: increase_font_size_def decrease_font_size_def setPointSize_def Let_def)

theorem font_size_stepping_witness:
  "increase_font_size initial_fonts = \<lparr>editor_pointSize = 13, output_pointSize = 12\<rparr> \<and>
   decrease_font_size initial_fonts = \<lparr>editor_pointSize = 9, output_pointSize = 8\<rparr> \<and>
   increase_font_size \<lparr>editor_pointSize = 73, output_pointSize = 72\<rparr>
     = \<lparr>editor_pointSize = 73, output_pointSize = 72\<rparr> \<and>
   decrease_font_size \<lparr>editor_pointSize = 5, output_pointSize = 4\<rparr>
     = \<lparr>editor_pointSize = 5, output_pointSize = 4\<rparr> \<and>
   5 \<le> editor_pointSize initial_fonts \<and> editor_pointSize initial_fonts \<le> 73"
  using font_size_stepping [of initial_fonts]
    font_size_stepping [of "\<lparr>editor_pointSize = 73, output_pointSize = 72\<rparr>"]
    font_size_stepping [of "\<lparr>editor_pointSize = 5, output_pointSize = 4\<rparr>"]
    font_init
  by (simp add: initial_fonts_def)

section \<open>Properties of the syntax highlighter\<close>

lemma find_from_range:
  "find_from tx sub i = - 1 \<or>
   (int i \<le> find_from tx sub i \<and> find_from tx sub i + int (length sub) \<le> int (length tx))"
proof (induction tx sub i rule: find_from.induct)
  case (1 tx sub i)
  show ?case
  proof (cases "length tx < i + length sub")
    case True
    then show ?thesis by (subst find_from.simps) simp
  next
    case False
    show ?thesis
    proof (cases "take (length sub) (drop i tx) = sub")
      case True
      with False have "find_from tx sub i = int i" by (subst find_from.simps) simp
      with False show ?thesis by simp
    next
      case no: False
      then have "find_from tx sub i = find_from tx sub (Suc i)"
        using False by (subst find_from.simps) simp
      with "1.IH" [OF False no] show ?thesis by auto
    qed
  qed
qed




lemma py_find_nat [simp]: "py_find tx sub (int p) = find_from tx sub p"
  by (simp add: py_find_def)

lemma length_triple [simp]: "length triple_single = 3" "length triple_double = 3"
  by (simp_all add: triple_single_def triple_double_def)


lemma scan_unfold:
  "scan_multiline tx (int p) h =
     (if p < length tx then
        let start_s = find_from tx triple_single p;
            start_d = find_from tx triple_double p
        in if start_s = - 1 \<and> start_d = - 1 then Some h
           else if start_d = - 1 \<or> (start_s \<noteq> - 1 \<and> start_s < start_d) then
             (let end_index = py_find tx triple_single (start_s + 3)
              in if end_index = - 1 then
                   Some (setFormat start_s (int (length tx) - start_s) string_format
                           (setCurrentBlockState 1 h))
                 else scan_multiline tx (end_index + 3)
                        (setFormat start_s (end_index - start_s + 3) string_format h))
           else
             (let end_index = py_find tx triple_double (start_d + 3)
              in if end_index = - 1 then
                   Some (setFormat start_d (int (length tx) - start_d) string_format
                           (setCurrentBlockState 2 h))
                 else scan_multiline tx (end_index + 3)
                        (setFormat start_d (end_index - start_d + 3) string_format h))
      else Some h)"
  by (subst scan_multiline.simps) (simp add: Let_def)






lemma scan_result_stop: "scan_result p h (Some h)"
  by (simp add: scan_result_def string_calls_from_def)

lemma scan_result_unclosed:
  "p \<le> n \<Longrightarrow> st = 1 \<or> st = 2 \<Longrightarrow>
   scan_result p h (Some (setFormat n len string_format (setCurrentBlockState st h)))"
  by (auto simp: scan_result_def string_calls_from_def setFormat_def setCurrentBlockState_def)

lemma scan_result_step:
  assumes "scan_result q (setFormat n len string_format h) r" and "p \<le> n" and "p \<le> q"
  shows "scan_result p h r"
proof -
  from assms(1) obtain h' ml where r: "r = Some h'"
    and ml: "calls h' = calls (setFormat n len string_format h) @ ml" "string_calls_from q ml"
    and st: "currentBlockState h' = currentBlockState (setFormat n len string_format h)
             \<or> currentBlockState h' = 1 \<or> currentBlockState h' = 2"
    unfolding scan_result_def by blast
  have c: "calls h' = calls h @ ((n, len, string_format) # ml)"
    using ml(1) by (simp add: setFormat_def)
  have s: "string_calls_from p ((n, len, string_format) # ml)"
    using ml(2) assms(2,3) by (auto simp: string_calls_from_def)
  have st': "currentBlockState h' = currentBlockState h
             \<or> currentBlockState h' = 1 \<or> currentBlockState h' = 2"
    using st by (simp add: setFormat_def)
  show ?thesis
    unfolding scan_result_def
  proof (intro exI conjI)
    show "r = Some h'" by (fact r)
    show "calls h' = calls h @ ((n, len, string_format) # ml)" by (fact c)
    show "string_calls_from p ((n, len, string_format) # ml)" by (fact s)
    show "currentBlockState h' = currentBlockState h
             \<or> currentBlockState h' = 1 \<or> currentBlockState h' = 2" by (fact st')
  qed
qed

lemma scan_branch:
  assumes IH: "\<And>q h'. p < q \<Longrightarrow> scan_result (int q) h' (scan_multiline tx (int q) h')"
    and n: "find_from tx delimiter p = n" "n \<noteq> - 1" and len: "length delimiter = 3"
    and st: "st = 1 \<or> st = 2"
  shows "scan_result (int p) h
           (if py_find tx delimiter (n + 3) = - 1 then
              Some (setFormat n (int (length tx) - n) string_format
                      (setCurrentBlockState st h))
            else scan_multiline tx (py_find tx delimiter (n + 3) + 3)
                   (setFormat n (py_find tx delimiter (n + 3) - n + 3) string_format h))"
proof -
  from find_from_range [of tx delimiter p] n have pn: "int p \<le> n" by auto
  then have n0: "0 \<le> n" by simp
  define e where "e = py_find tx delimiter (n + 3)"
  have e: "e = find_from tx delimiter (nat n + 3)"
    using n0 by (simp add: e_def py_find_def nat_add_distrib)
  show ?thesis
  proof (cases "e = - 1")
    case True
    have "scan_result (int p) h
        (Some (setFormat n (int (length tx) - n) string_format (setCurrentBlockState st h)))"
      using pn st by (rule scan_result_unclosed)
    with True show ?thesis
      unfolding e_def [symmetric] by simp
  next
    case False
    with find_from_range [of tx delimiter "nat n + 3"] e n0 len
    have ge: "n + 3 \<le> e" by auto
    then have eq: "e + 3 = int (nat e + 3)" using n0 by simp
    have "p < nat e + 3" using ge pn by linarith
    from IH [OF this] have rec: "scan_result (e + 3) (setFormat n (e - n + 3) string_format h)
        (scan_multiline tx (e + 3) (setFormat n (e - n + 3) string_format h))"
      unfolding eq .
    have "int p \<le> e + 3" using pn ge by linarith
    from scan_result_step [OF rec pn this] have "scan_result (int p) h
        (scan_multiline tx (e + 3) (setFormat n (e - n + 3) string_format h))" .
    with False show ?thesis
      unfolding e_def [symmetric] by simp
  qed
qed

lemma scan_multiline_result: "scan_result (int p) h (scan_multiline tx (int p) h)"
proof (induction "length tx - p" arbitrary: p h rule: less_induct)
  case less
  show ?case
  proof (cases "p < length tx")
    case False
    then show ?thesis by (subst scan_unfold) (simp add: scan_result_stop)
  next
    case True
    have IH: "scan_result (int q) h' (scan_multiline tx (int q) h')" if "p < q" for q h'
    proof (cases "q < length tx")
      case True
      with that show ?thesis by (intro less) simp
    next
      case False
      then show ?thesis by (subst scan_unfold) (simp add: scan_result_stop)
    qed
    define s where "s = find_from tx triple_single p"
    define d where "d = find_from tx triple_double p"
    note b1 = scan_branch [where tx = tx and p = p and delimiter = triple_single and st = 1
        and h = h and n = s]
    note b2 = scan_branch [where tx = tx and p = p and delimiter = triple_double and st = 2
        and h = h and n = d]
    have unf: "scan_multiline tx (int p) h =
      (if s = - 1 \<and> d = - 1 then Some h
       else if d = - 1 \<or> (s \<noteq> - 1 \<and> s < d) then
         (if py_find tx triple_single (s + 3) = - 1 then
              Some (setFormat s (int (length tx) - s) string_format
                      (setCurrentBlockState 1 h))
            else scan_multiline tx (py_find tx triple_single (s + 3) + 3)
                   (setFormat s (py_find tx triple_single (s + 3) - s + 3) string_format h))
       else
         (if py_find tx triple_double (d + 3) = - 1 then
              Some (setFormat d (int (length tx) - d) string_format
                      (setCurrentBlockState 2 h))
            else scan_multiline tx (py_find tx triple_double (d + 3) + 3)
                   (setFormat d (py_find tx triple_double (d + 3) - d + 3) string_format h)))"
      using True unfolding s_def d_def by (subst scan_unfold) (simp only: Let_def if_True)
    show ?thesis
    proof (cases "s = - 1 \<and> d = - 1")
      case True
      then show ?thesis unfolding unf by (simp add: scan_result_stop)
    next
      case nb: False
      show ?thesis
      proof (cases "d = - 1 \<or> (s \<noteq> - 1 \<and> s < d)")
        case True
        with nb have "s \<noteq> - 1" by auto
        have "scan_result (int p) h
          (if py_find tx triple_single (s + 3) = - 1 then
              Some (setFormat s (int (length tx) - s) string_format
                      (setCurrentBlockState 1 h))
            else scan_multiline tx (py_find tx triple_single (s + 3) + 3)
                   (setFormat s (py_find tx triple_single (s + 3) - s + 3) string_format h))"
          by (rule b1) (use \<open>s \<noteq> - 1\<close> in \<open>simp_all add: s_def IH\<close>)
        with True nb show ?thesis unfolding unf by auto
      next
        case False
        with nb have "d \<noteq> - 1" by auto
        have "scan_result (int p) h
          (if py_find tx triple_double (d + 3) = - 1 then
              Some (setFormat d (int (length tx) - d) string_format
                      (setCurrentBlockState 2 h))
            else scan_multiline tx (py_find tx triple_double (d + 3) + 3)
                   (setFormat d (py_find tx triple_double (d + 3) - d + 3) string_format h))"
          by (rule b2) (use \<open>d \<noteq> - 1\<close> in \<open>simp_all add: d_def IH\<close>)
        with False nb show ?thesis unfolding unf by auto
      qed
    qed
  qed
qed

lemma length_apply_format [simp]: "length (apply_format buf c) = length buf"
  by (cases c) (simp add: apply_format_def)

lemma length_foldl_apply_format [simp]: "length (foldl apply_format buf cs) = length buf"
  by (induction cs arbitrary: buf) simp_all

lemma apply_format_nth:
  "i < length buf \<Longrightarrow>
   apply_format buf c ! i = (if covers c i then Some (snd (snd c)) else buf ! i)"
  by (cases c) (auto simp: apply_format_def covers_def)

lemma foldl_apply_format_uncovered:
  "i < length buf \<Longrightarrow> \<forall>b\<in>set cs. \<not> covers b i \<Longrightarrow> foldl apply_format buf cs ! i = buf ! i"
  by (induction cs arbitrary: buf) (simp_all add: apply_format_nth)

lemma foldl_apply_format_last:
  assumes "i < length buf" and "covers c i" and "\<forall>b\<in>set B. \<not> covers b i"
  shows "foldl apply_format buf (A @ c # B) ! i = Some (snd (snd c))"
proof -
  have "foldl apply_format buf (A @ c # B) ! i
          = apply_format (foldl apply_format buf A) c ! i"
    using assms by (simp add: foldl_apply_format_uncovered)
  also have "\<dots> = Some (snd (snd c))"
    using assms by (simp add: apply_format_nth)
  finally show ?thesis .
qed

lemma formats_last_call:
  assumes "i < length tx" and "calls h = A @ c # B" and "covers c i"
    and "\<forall>b\<in>set B. \<not> covers b i"
  shows "formats tx h ! i = Some (snd (snd c))"
proof -
  have "i < length (replicate (length tx) (None :: char_format option))"
    using assms(1) by simp
  from foldl_apply_format_last [OF this assms(3,4), of A] assms(2)
  show ?thesis by (simp add: formats_def)
qed

lemma formats_no_call:
  assumes "i < length tx" and "\<forall>c\<in>set (calls h). \<not> covers c i"
  shows "formats tx h ! i = None"
  using assms by (simp add: formats_def foldl_apply_format_uncovered)

lemma formats_string_tail:
  assumes i: "i < length tx" and c: "calls h = A @ ml"
    and s: "\<forall>c\<in>set ml. snd (snd c) = string_format" and cov: "\<exists>c\<in>set ml. covers c i"
  shows "formats tx h ! i = Some string_format"
proof -
  from cov obtain X c' Y where ml: "ml = X @ c' # Y" and c': "covers c' i"
    and Y: "\<forall>b\<in>set Y. \<not> covers b i"
    using split_list_last_prop [of ml "\<lambda>c. covers c i"] by blast
  from c ml have "calls h = (A @ X) @ c' # Y" by simp
  from formats_last_call [OF i this c' Y] have "formats tx h ! i = Some (snd (snd c'))" .
  moreover from s ml have "snd (snd c') = string_format" by simp
  ultimately show ?thesis by simp
qed

lemma apply_matches_calls:
  "apply_matches ms fmt h =
     h\<lparr>calls := calls h @ map (\<lambda>(capturedStart, capturedLength).
                                 (capturedStart, capturedLength, fmt)) ms\<rparr>"
  by (induction ms fmt h rule: apply_matches.induct) (simp_all add: setFormat_def)

lemma apply_rules_calls:
  "apply_rules rules tx h = h\<lparr>calls := calls h @ rule_calls rules tx\<rparr>"
  by (induction rules tx h rule: apply_rules.induct)
     (simp_all add: rule_calls_def apply_matches_calls)

lemma highlightBlock_unfold:
  "highlightBlock rules tx prev st =
     (if prev > 0 then
        if find_from tx (delimiter_of prev) 0 = - 1 then
          Some (setFormat 0 (int (length tx)) string_format
                  (setCurrentBlockState prev (after_rules rules tx)))
        else
          scan_multiline tx
            (find_from tx (delimiter_of prev) 0 + int (length (delimiter_of prev)))
            (setFormat 0 (find_from tx (delimiter_of prev) 0 + int (length (delimiter_of prev)))
               string_format (after_rules rules tx))
      else scan_multiline tx 0 (after_rules rules tx))"
  by (simp add: highlightBlock_def Let_def apply_rules_calls setCurrentBlockState_def
      after_rules_def delimiter_of_def py_find_def)

lemma highlightBlock_result:
  "\<exists>h. highlightBlock rules tx prev st = Some h \<and>
       (\<exists>ml. calls h = rule_calls rules tx @ ml \<and> (\<forall>c\<in>set ml. snd (snd c) = string_format))"
proof (cases "prev > 0")
  case False
  from scan_multiline_result [of 0 "after_rules rules tx" tx]
  show ?thesis using False unfolding highlightBlock_unfold
    by (auto simp: scan_result_def string_calls_from_def after_rules_def)
next
  case True
  define e where "e = find_from tx (delimiter_of prev) 0"
  show ?thesis
  proof (cases "e = - 1")
    case True
    with \<open>prev > 0\<close> show ?thesis unfolding highlightBlock_unfold e_def [symmetric]
      by (simp add: setFormat_def setCurrentBlockState_def after_rules_def)
  next
    case False
    with find_from_range [of tx "delimiter_of prev" 0] have "0 \<le> e" by (simp add: e_def)
    then obtain k where k: "e + int (length (delimiter_of prev)) = int k"
      by (metis nonneg_int_cases of_nat_add)
    from scan_multiline_result [of k "setFormat 0 (int k) string_format (after_rules rules tx)" tx]
    show ?thesis using False \<open>prev > 0\<close>
      unfolding highlightBlock_unfold e_def [symmetric] k
      by (auto simp: scan_result_def string_calls_from_def after_rules_def setFormat_def)
  qed
qed


lemma highlightBlock_stored:
  "highlightBlock rules tx prev st = highlightBlock rules tx prev st'"
  by (simp only: highlightBlock_unfold)










text \<open>
  Claim C7. The computation for one line returns for every rule list, every line and
  every pair of incoming and stored states: the forward scan started at any position
  returns, and so does \<^verbatim>\<open>highlightBlock\<close>. The loop is modelled as a partial function
  whose value is \<open>None\<close> if it does not return; no operation of the body raises.
\<close>

theorem highlightBlock_total:
  "(\<exists>h'. scan_multiline tx (int p) h = Some h') \<and>
   (\<exists>h'. highlightBlock rules tx prev st = Some h')"
  using scan_multiline_result [of p h tx] highlightBlock_result [of rules tx prev st]
  unfolding scan_result_def by blast

text \<open>
  Claim C9. The result of \<^verbatim>\<open>highlightBlock\<close> depends on the line and the incoming state
  only: the state stored for the block by an earlier pass does not influence it, and
  running the pass again from the state it produced gives the same calls and the same
  outgoing state.
\<close>

theorem highlightBlock_idempotent:
  "highlightBlock rules tx prev st = highlightBlock rules tx prev st' \<and>
   (\<exists>h. highlightBlock rules tx prev st = Some h \<and>
        highlightBlock rules tx prev (currentBlockState h) = Some h)"
proof -
  from highlightBlock_result [of rules tx prev st]
  obtain h where h: "highlightBlock rules tx prev st = Some h" by blast
  then have "highlightBlock rules tx prev (currentBlockState h) = Some h"
    using highlightBlock_stored [of rules tx prev "currentBlockState h" st] by simp
  with h highlightBlock_stored [of rules tx prev st st'] show ?thesis by blast
qed







lemma rule_calls_append: "rule_calls (r1 @ r2) tx = rule_calls r1 tx @ rule_calls r2 tx"
  by (simp add: rule_calls_def)

lemma rule_calls_Cons:
  "rule_calls ((pat, fmt) # r2) tx =
     map (\<lambda>m. (fst m, snd m, fmt)) (globalMatch pat tx) @ rule_calls r2 tx"
  by (simp add: rule_calls_def case_prod_beta)

lemma later_rule_wins:
  assumes i: "i < length tx"
    and c: "calls h = rule_calls (r1 @ (pat, fmt) # r2) tx @ ml"
    and m: "m \<in> set (globalMatch pat tx)" "covers (fst m, snd m, fmt) i"
    and later: "\<forall>c\<in>set (rule_calls r2 tx). \<not> covers c i"
    and ml: "\<forall>c\<in>set ml. \<not> covers c i"
  shows "formats tx h ! i = Some fmt"
proof -
  define middle where "middle = map (\<lambda>m. (fst m, snd m, fmt)) (globalMatch pat tx)"
  from m have "\<exists>c\<in>set middle. covers c i" by (auto simp: middle_def)
  then obtain X c' Y where mid: "middle = X @ c' # Y" and c': "covers c' i"
    and Y: "\<forall>b\<in>set Y. \<not> covers b i"
    using split_list_last_prop [of middle "\<lambda>c. covers c i"] by blast
  have "c' \<in> set middle" using mid by simp
  then have fmt: "snd (snd c') = fmt" by (auto simp: middle_def)
  have "calls h = (rule_calls r1 tx @ X) @ c' # (Y @ rule_calls r2 tx @ ml)"
    using c mid by (simp add: rule_calls_append rule_calls_Cons middle_def [symmetric])
  moreover have "\<forall>b\<in>set (Y @ rule_calls r2 tx @ ml). \<not> covers b i"
    using Y later ml by auto
  ultimately have "formats tx h ! i = Some (snd (snd c'))"
    using i c' by (intro formats_last_call)
  with fmt show ?thesis by simp
qed

lemma scenario_c_eval:
  "highlightBlock highlighting_rules scenario_c_line 0 (- 1) =
     Some \<lparr>calls = [(0, 3, keyword_format), (4, 3, function_format), (4, 3, function_format)],
            currentBlockState = 0\<rparr>"
  by code_simp

lemma scenario_c_matches:
  "globalMatch name_before_paren_rx scenario_c_line = [(4, 3)] \<and>
   globalMatch name_after_def_rx scenario_c_line = [(4, 3)]"
  by code_simp

lemma scenario_c_formats:
  "formats scenario_c_line
     \<lparr>calls = [(0, 3, keyword_format), (4, 3, function_format), (4, 3, function_format)],
      currentBlockState = 0\<rparr> =
   [Some keyword_format, Some keyword_format, Some keyword_format, None,
    Some function_format, Some function_format, Some function_format,
    None, None, None, None]"
  by code_simp

lemma highlighting_rules_order:
  "\<exists>front. highlighting_rules =
     front @ [(name_before_paren_rx, function_format),
              (name_after_class_rx, function_format),
              (name_after_def_rx, function_format)]"
  by (simp add: highlighting_rules_def)

text \<open>
  Claim C5. The calls of \<^verbatim>\<open>highlightBlock\<close> are those of the single-line rules, rule by
  rule in registration order, followed by the calls of the multi-line part, which all
  carry the string format. The format of a character is the format of the last call
  that covers it (none if no call covers it). So a character covered by a match of a
  rule, by no match of a rule registered after it and by no multi-line call has that
  rule's format, and a character covered by a multi-line call has the string format.
  Scenario C: on the line \<^verbatim>\<open>def foo(x):\<close> the name-before-parenthesis rule and the
  rule for names after \<^verbatim>\<open>def\<close> both match offsets 4 to 6; the second is registered
  last, and its format is the one found there.
\<close>

theorem ordered_overlay:
  assumes "highlightBlock rules tx prev st = Some h" and "i < length tx"
  shows "(\<exists>ml. calls h = rule_calls rules tx @ ml \<and>
              (\<forall>c\<in>set ml. snd (snd c) = string_format) \<and>
              ((\<exists>c\<in>set ml. covers c i) \<longrightarrow> formats tx h ! i = Some string_format) \<and>
              (\<forall>r1 pat fmt r2 m.
                  rules = r1 @ (pat, fmt) # r2 \<and> m \<in> set (globalMatch pat tx) \<and>
                  covers (fst m, snd m, fmt) i \<and>
                  (\<forall>c\<in>set (rule_calls r2 tx). \<not> covers c i) \<and>
                  (\<forall>c\<in>set ml. \<not> covers c i) \<longrightarrow>
                  formats tx h ! i = Some fmt)) \<and>
         (\<forall>A c B. calls h = A @ c # B \<and> covers c i \<and> (\<forall>b\<in>set B. \<not> covers b i) \<longrightarrow>
            formats tx h ! i = Some (snd (snd c))) \<and>
         ((\<forall>c\<in>set (calls h). \<not> covers c i) \<longrightarrow> formats tx h ! i = None) \<and>
         (\<forall>r1 r2. rule_calls (r1 @ r2) tx = rule_calls r1 tx @ rule_calls r2 tx) \<and>
         (\<exists>front. highlighting_rules =
            front @ [(name_before_paren_rx, function_format),
                     (name_after_class_rx, function_format),
                     (name_after_def_rx, function_format)]) \<and>
         globalMatch name_before_paren_rx scenario_c_line = [(4, 3)] \<and>
         globalMatch name_after_def_rx scenario_c_line = [(4, 3)] \<and>
         (\<exists>hc. highlightBlock highlighting_rules scenario_c_line 0 st = Some hc \<and>
             calls hc = [(0, 3, keyword_format), (4, 3, function_format),
                         (4, 3, function_format)] \<and>
             currentBlockState hc = 0 \<and>
             formats scenario_c_line hc =
               [Some keyword_format, Some keyword_format, Some keyword_format, None,
                Some function_format, Some function_format, Some function_format,
                None, None, None, None])"
proof -
  from highlightBlock_result [of rules tx prev st] assms(1)
  obtain ml where ml: "calls h = rule_calls rules tx @ ml"
    "\<forall>c\<in>set ml. snd (snd c) = string_format"
    by auto
  have over: "(\<exists>c\<in>set ml. covers c i) \<longrightarrow> formats tx h ! i = Some string_format"
    using formats_string_tail [OF assms(2) ml] by blast
  have later: "\<forall>r1 pat fmt r2 m.
                  rules = r1 @ (pat, fmt) # r2 \<and> m \<in> set (globalMatch pat tx) \<and>
                  covers (fst m, snd m, fmt) i \<and>
                  (\<forall>c\<in>set (rule_calls r2 tx). \<not> covers c i) \<and>
                  (\<forall>c\<in>set ml. \<not> covers c i) \<longrightarrow>
                  formats tx h ! i = Some fmt"
  proof (intro allI impI, elim conjE)
    fix r1 pat fmt r2 m
    assume r: "rules = r1 @ (pat, fmt) # r2" and m: "m \<in> set (globalMatch pat tx)"
      "covers (fst m, snd m, fmt) i"
      and l: "\<forall>c\<in>set (rule_calls r2 tx). \<not> covers c i" "\<forall>c\<in>set ml. \<not> covers c i"
    from ml(1) r have "calls h = rule_calls (r1 @ (pat, fmt) # r2) tx @ ml" by simp
    from later_rule_wins [OF assms(2) this m l] show "formats tx h ! i = Some fmt" .
  qed
  have first: "\<exists>ml. calls h = rule_calls rules tx @ ml \<and>
              (\<forall>c\<in>set ml. snd (snd c) = string_format) \<and>
              ((\<exists>c\<in>set ml. covers c i) \<longrightarrow> formats tx h ! i = Some string_format) \<and>
              (\<forall>r1 pat fmt r2 m.
                  rules = r1 @ (pat, fmt) # r2 \<and> m \<in> set (globalMatch pat tx) \<and>
                  covers (fst m, snd m, fmt) i \<and>
                  (\<forall>c\<in>set (rule_calls r2 tx). \<not> covers c i) \<and>
                  (\<forall>c\<in>set ml. \<not> covers c i) \<longrightarrow>
                  formats tx h ! i = Some fmt)"
    using ml over later by (intro exI [of _ ml] conjI)
  have last: "\<forall>A c B. calls h = A @ c # B \<and> covers c i \<and> (\<forall>b\<in>set B. \<not> covers b i) \<longrightarrow>
            formats tx h ! i = Some (snd (snd c))"
    using formats_last_call [OF assms(2)] by blast
  have none: "(\<forall>c\<in>set (calls h). \<not> covers c i) \<longrightarrow> formats tx h ! i = None"
    using formats_no_call [OF assms(2)] by blast
  have app: "\<forall>r1 r2. rule_calls (r1 @ r2) tx = rule_calls r1 tx @ rule_calls r2 tx"
    by (simp add: rule_calls_append)
  have "highlightBlock highlighting_rules scenario_c_line 0 st =
     Some \<lparr>calls = [(0, 3, keyword_format), (4, 3, function_format), (4, 3, function_format)],
            currentBlockState = 0\<rparr>"
    using scenario_c_eval highlightBlock_stored [of _ _ _ st "- 1"] by simp
  with scenario_c_formats
  have sc: "\<exists>hc. highlightBlock highlighting_rules scenario_c_line 0 st = Some hc \<and>
             calls hc = [(0, 3, keyword_format), (4, 3, function_format),
                         (4, 3, function_format)] \<and>
             currentBlockState hc = 0 \<and>
             formats scenario_c_line hc =
               [Some keyword_format, Some keyword_format, Some keyword_format, None,
                Some function_format, Some function_format, Some function_format,
                None, None, None, None]"
    by simp
  from first last none app highlighting_rules_order scenario_c_matches sc
  show ?thesis by (intro conjI) simp_all
qed

theorem ordered_overlay_witness:
  "highlightBlock highlighting_rules scenario_c_line 0 (- 1) =
     Some \<lparr>calls = [(0, 3, keyword_format), (4, 3, function_format), (4, 3, function_format)],
            currentBlockState = 0\<rparr> \<and>
   4 < length scenario_c_line \<and>
   covers (4, 3, function_format) 4 \<and>
   formats scenario_c_line
     \<lparr>calls = [(0, 3, keyword_format), (4, 3, function_format), (4, 3, function_format)],
      currentBlockState = 0\<rparr> ! 4 = Some function_format"
proof -
  let ?h = "\<lparr>calls = [(0, 3, keyword_format), (4, 3, function_format),
                      (4, 3, function_format)], currentBlockState = 0\<rparr>"
  have len: "4 < length scenario_c_line" by code_simp
  have cov: "covers (4, 3, function_format) 4" by code_simp
  have c: "calls ?h = [(0, 3, keyword_format), (4, 3, function_format)]
             @ (4, 3, function_format) # []" by simp
  have e: "\<forall>b\<in>set []. \<not> covers b 4" by simp
  from ordered_overlay [OF scenario_c_eval len]
  have "\<forall>A c B. calls ?h = A @ c # B \<and> covers c 4 \<and> (\<forall>b\<in>set B. \<not> covers b 4) \<longrightarrow>
            formats scenario_c_line ?h ! 4 = Some (snd (snd c))"
    by (elim conjE)
  with c cov e have "formats scenario_c_line ?h ! 4 = Some (snd (snd (4::int, 3::int, function_format)))"
    by blast
  with scenario_c_eval len cov show ?thesis by simp
qed

section \<open>Properties of saving and opening\<close>


















section \<open>Properties of running the code\<close>

lemma write_to_file_run_fields:
  "run_enabled (snd (write_to_file e p s)) = run_enabled s \<and>
   running (snd (write_to_file e p s)) = running s"
  by (simp add: write_to_file_def show_dialog_def set_current_file_def split: option.splits)

lemma save_file_as_run_fields:
  "run_enabled (snd (save_file_as e s)) = run_enabled s \<and>
   running (snd (save_file_as e s)) = running s"
  using write_to_file_run_fields [of e "save_dialog_answer e" "show_dialog SaveFileDialog s"]
  by (simp add: save_file_as_def Let_def show_dialog_def)

lemma save_file_run_fields:
  "run_enabled (snd (save_file e s)) = run_enabled s \<and>
   running (snd (save_file e s)) = running s"
  using write_to_file_run_fields save_file_as_run_fields
  by (simp add: save_file_def split: option.splits)

lemma maybe_save_run_fields:
  "run_enabled (snd (maybe_save e s)) = run_enabled s \<and>
   running (snd (maybe_save e s)) = running s"
  using save_file_run_fields [of e "show_dialog SaveDiscardCancelBox s"]
  by (simp add: maybe_save_def Let_def show_dialog_def)

lemma new_file_run_fields:
  "run_enabled (new_file e s) = run_enabled s \<and> running (new_file e s) = running s"
proof (cases "maybe_save e s")
  case (Pair ok s')
  with maybe_save_run_fields [of e s] show ?thesis
    by (cases ok) (simp_all add: new_file_def set_current_file_def)
qed

lemma open_file_run_fields:
  "run_enabled (open_file e s) = run_enabled s \<and> running (open_file e s) = running s"
proof (cases "maybe_save e s")
  case (Pair ok s')
  with maybe_save_run_fields [of e s] show ?thesis
    by (cases ok)
       (simp_all add: open_file_def set_current_file_def show_dialog_def Let_def
          split: option.splits)
qed

lemma run_code_cases:
  "(run_enabled (run_code e s) = run_enabled s \<and> running (run_code e s) = running s) \<or>
   (\<not> run_enabled (run_code e s) \<and> running (run_code e s) = running s + 1)"
proof (cases "save_file e s")
  case (Pair ok s')
  with save_file_run_fields [of e s] show ?thesis
    by (cases ok) (simp_all add: run_code_def show_dialog_def split: option.splits)
qed

lemma reachable_invariant:
  "reachable s \<Longrightarrow> running s \<le> 1 \<and> (0 < running s \<longrightarrow> \<not> run_enabled s)"
proof (induction rule: reachable.induct)
  case (reach_init disk)
  show ?case by (simp add: initial_app_def)
next
  case (reach_run s e)
  with run_code_cases [of e s] show ?case by auto
next
  case (reach_finished s)
  then show ?case by (auto simp: process_finished_def)
next
  case (reach_edit s content)
  then show ?case by (simp add: edit_text_def)
next
  case (reach_new s e)
  with new_file_run_fields [of e s] show ?case by simp
next
  case (reach_open s e)
  with open_file_run_fields [of e s] show ?case by simp
next
  case (reach_save s e)
  with save_file_run_fields [of e s] show ?case by simp
next
  case (reach_save_as s e)
  with save_file_as_run_fields [of e s] show ?case by simp
qed

text \<open>
  Claim C6. In every reachable state at most one external process is outstanding,
  and while one is outstanding the run action is disabled, so the run event cannot
  fire. \<^verbatim>\<open>run_code\<close> starts a process only together with disabling the action, and no
  action other than the handler of the \<^verbatim>\<open>finished\<close> signal enables it again.
\<close>

theorem single_outstanding_run:
  assumes "reachable s"
  shows "running s \<le> 1 \<and>
         (0 < running s \<longrightarrow> \<not> run_enabled s) \<and>
         (running (run_code e s) \<noteq> running s \<longrightarrow>
            running (run_code e s) = running s + 1 \<and> \<not> run_enabled (run_code e s)) \<and>
         (\<not> run_enabled s \<longrightarrow>
            \<not> run_enabled (run_code e s) \<and> \<not> run_enabled (edit_text content s) \<and>
            \<not> run_enabled (new_file e s) \<and> \<not> run_enabled (open_file e s) \<and>
            \<not> run_enabled (snd (save_file e s)) \<and> \<not> run_enabled (snd (save_file_as e s))) \<and>
         run_enabled (process_finished s)"
  using reachable_invariant [OF assms] run_code_cases [of e s] new_file_run_fields [of e s]
    open_file_run_fields [of e s] save_file_run_fields [of e s]
    save_file_as_run_fields [of e s]
  by (auto simp: edit_text_def process_finished_def)

theorem single_outstanding_run_witness:
  "reachable (run_code sample_env unsaved_document) \<and>
   running (run_code sample_env unsaved_document) = 1 \<and>
   \<not> run_enabled (run_code sample_env unsaved_document)"
proof -
  have "reachable unsaved_document"
    unfolding unsaved_document_def by (intro reach_edit reach_init)
  moreover have "run_enabled unsaved_document"
    by (simp add: unsaved_document_def edit_text_def initial_app_def)
  ultimately have r: "reachable (run_code sample_env unsaved_document)"
    by (rule reach_run)
  have w: "write_text (linesep sample_env) (editor_text unsaved_document) \<noteq> None"
    by (simp add: sample_env_def unsaved_document_def edit_text_def sample_text_def
        write_text_def translate_newlines_def encode_code_point_def)
  have n: "running (run_code sample_env unsaved_document) = 1"
    using w
    by (auto simp: run_code_def save_file_def save_file_as_def write_to_file_def
        show_dialog_def set_current_file_def sample_env_def unsaved_document_def
        edit_text_def initial_app_def Let_def)
  from single_outstanding_run [OF r, of sample_env] n
  have "\<not> run_enabled (run_code sample_env unsaved_document)" by simp
  with r n show ?thesis by simp
qed

text \<open>
  Claim C3 as the code has it. \<^verbatim>\<open>run_code\<close> calls \<^verbatim>\<open>save_file\<close>, not \<^verbatim>\<open>maybe_save\<close>: on a
  document that was never saved it opens the file dialog for a name. If the user
  cancels that dialog, the run is aborted: apart from the dialog shown and the status
  message, the state is unchanged (the text, the modified flag and the disk are as
  they were, and no process is started). The box with the three buttons belongs to
  \<^verbatim>\<open>maybe_save\<close>, where Cancel stops the caller with nothing changed.
\<close>

theorem run_unsaved_cancel:
  assumes "current_file_path s = None" and "save_dialog_answer e = []"
  shows "run_code e s =
           s\<lparr>dialogs := dialogs s @ [SaveFileDialog],
             status_message := ''Save cancelled. Run aborted.''\<rparr> \<and>
         editor_text (run_code e s) = editor_text s \<and>
         document_modified (run_code e s) = document_modified s \<and>
         files (run_code e s) = files s \<and>
         running (run_code e s) = running s \<and>
         run_enabled (run_code e s) = run_enabled s \<and>
         (document_modified s \<and> message_box_answer e = Cancel \<longrightarrow>
            maybe_save e s = (False, show_dialog SaveDiscardCancelBox s))"
  using assms
  by (simp add: run_code_def save_file_def save_file_as_def show_dialog_def maybe_save_def
      Let_def)

theorem run_unsaved_cancel_witness:
  "current_file_path unsaved_document = None \<and>
   save_dialog_answer cancel_env = [] \<and>
   document_modified unsaved_document \<and>
   dialogs (run_code cancel_env unsaved_document) = [SaveFileDialog] \<and>
   running (run_code cancel_env unsaved_document) = 0 \<and>
   files (run_code cancel_env unsaved_document) ''a.py'' = None \<and>
   maybe_save cancel_env unsaved_document
     = (False, show_dialog SaveDiscardCancelBox unsaved_document)"
proof -
  have p: "current_file_path unsaved_document = None"
    by (simp add: unsaved_document_def edit_text_def initial_app_def)
  have a: "save_dialog_answer cancel_env = []" by (simp add: cancel_env_def)
  have m: "document_modified unsaved_document"
    by (simp add: unsaved_document_def edit_text_def)
  have c: "message_box_answer cancel_env = Cancel" by (simp add: cancel_env_def)
  from run_unsaved_cancel [OF p a] m c p a show ?thesis
    by (simp add: unsaved_document_def edit_text_def initial_app_def)
qed

text \<open>
  Claim C3 as written says that Run on an unsaved document shows the three-button
  box. On the edited, never-saved sample document the only dialog shown is the file
  dialog.
\<close>

theorem run_prompt_counterexample:
  "document_modified unsaved_document \<and>
   current_file_path unsaved_document = None \<and>
   dialogs (run_code cancel_env unsaved_document) = [SaveFileDialog] \<and>
   SaveDiscardCancelBox \<notin> set (dialogs (run_code cancel_env unsaved_document))"
  by (simp add: run_code_def save_file_def save_file_as_def show_dialog_def Let_def
      unsaved_document_def edit_text_def initial_app_def cancel_env_def)

end
